theory Spec2Isabelle
  imports Complex_Main
begin

section \<open>Error values\<close>

text \<open>
  Package \<open>api\<close> builds every error with \<open>errors.New\<close> or \<open>fmt.Errorf\<close>.
  \<open>ErrInvalidInput\<close> is the sentinel of \<open>internal/api/errors.go\<close>. \<open>Foreign\<close> stands
  for an error value made outside the package (os, net/http, encoding/json, the SDK).
  \<open>Msg\<close> is \<open>fmt.Errorf\<close> of a constant text, \<open>MsgS\<close> of a format with one
  \<open>%s\<close> operand, \<open>StatusMsg\<close> of a format with a status code (\<open>%d\<close>) and a
  response body (\<open>%s\<close>), and \<open>Wrap\<close> is
  \<open>fmt.Errorf\<close> of a format with one \<open>%w\<close> operand; the format text is kept as written
  in the source.
\<close>

datatype error =
    ErrInvalidInput
  | Foreign string
  | Msg string
  | MsgS string string
  | StatusMsg string int string
  | Wrap string error

text \<open>\<open>errors.Is\<close>: the target is the error itself or is reached by unwrapping.\<close>

fun errors_Is :: "error \<Rightarrow> error \<Rightarrow> bool" where
  "errors_Is (Wrap f e) t = (if Wrap f e = t then True else errors_Is e t)"
| "errors_Is ErrInvalidInput t = (ErrInvalidInput = t)"
| "errors_Is (Foreign s) t = (Foreign s = t)"
| "errors_Is (Msg s) t = (Msg s = t)"
| "errors_Is (MsgS f s) t = (MsgS f s = t)"
| "errors_Is (StatusMsg f n b) t = (StatusMsg f n b = t)"

section \<open>Data model\<close>

text \<open>\<open>UploadOptions\<close>; the \<open>Metadata\<close> map may be nil.\<close>

record UploadOptions =
  Name :: string
  Metadata :: "(string \<rightharpoonup> string) option"
  RequireSignedURLs :: bool

text \<open>The zero value \<open>&UploadOptions{}\<close>.\<close>

definition emptyUploadOptions :: UploadOptions where
  "emptyUploadOptions = \<lparr>Name = [], Metadata = None, RequireSignedURLs = False\<rparr>"

record UploadProgress =
  BytesSent :: int
  BytesTotal :: int

text \<open>The fields of \<open>Video\<close> that are strings or booleans.\<close>

record Video =
  UID :: string
  VideoName :: string
  Status :: string
  ReadyToStream :: bool

record ClientImpl =
  accountID :: string
  apiToken :: string

text \<open>
  An open \<open>*os.File\<close> on a regular file: its name, the length of its content and the
  read position.
\<close>

record os_file =
  fname :: string
  flen :: int
  fpos :: int

text \<open>The \<open>err\<close> result of \<open>file.Read\<close>: nil, \<open>io.EOF\<close> or another error.\<close>

datatype read_err = RNil | REOF | RErr error

text \<open>
  How the body of the multipart request ended: the writer goroutine closed the pipe after
  the given number of file bytes, or closed it with an error (\<open>pw.CloseWithError\<close>).
\<close>

datatype pipe_end = PipeClosed int | PipeFailed int error

text \<open>
  The outgoing requests, with the fields the code sets.
  \<^item> \<open>DirectUploadReq url authorization maxDurationSeconds requireSignedURLs\<close>: the POST of
    \<open>CreateDirectUploadURL\<close>; the two body fields are present only when set.
  \<^item> \<open>MultipartReq url filename body\<close>: the POST of \<open>multipartUpload\<close>.
  \<^item> \<open>TusCreateReq url authorization uploadLength uploadMetadata\<close>: the session-open POST.
  \<^item> \<open>TusPatchReq location authorization uploadOffset contentLength from\<close>: one chunk;
    the body is the \<open>contentLength\<close> bytes read from the file at position \<open>from\<close>.
  \<^item> \<open>StreamGetReq accountID videoID\<close>: the SDK call of \<open>GetVideo\<close>.
\<close>

datatype request =
    DirectUploadReq string string "int option" bool
  | MultipartReq string string pipe_end
  | TusCreateReq string string int "string option"
  | TusPatchReq string string int int int
  | StreamGetReq string string

record response =
  resp_status :: int
  resp_location :: string
  resp_body :: string
  resp_body_err :: "error option"

text \<open>\<open>client.Do\<close> returns an error or a response.\<close>

datatype http_result = TransportErr error | Response response

text \<open>The decoded body of the direct-upload response.\<close>

record direct_api_resp =
  api_success :: bool
  api_errors :: "string list"
  api_uploadURL :: string
  api_uid :: string

record DirectUploadOptions =
  MaxDurationSeconds :: int
  RequireSignedURLs_d :: bool

record DirectUploadResult =
  UploadURL :: string
  UID_d :: string

text \<open>
  Everything outside the process, as functions the code queries:
  \<^item> \<open>os_open path\<close>: \<open>os.Open\<close>, an error or the length of the file's content;
  \<^item> \<open>stat_fault path\<close>: the error of \<open>file.Stat\<close>, if any;
  \<^item> \<open>read_fault pos\<close>: the error of a \<open>file.Read\<close> issued at position \<open>pos\<close>, if any;
  \<^item> \<open>new_request_fault url\<close>: the error of \<open>http.NewRequestWithContext\<close>, if any;
  \<^item> \<open>http_do k req\<close>: what \<open>client.Do\<close> returns for \<open>req\<close>, the \<open>k\<close>-th request of
    the call (counted from 0);
  \<^item> \<open>form_file_fault\<close>: the error of \<open>writer.CreateFormFile\<close>, if any;
  \<^item> \<open>pipe_write_fault written\<close>: the error of \<open>part.Write\<close> after \<open>written\<close> bytes,
    if any;
  \<^item> \<open>json_direct body\<close>: \<open>json.Unmarshal\<close> of the direct-upload response body;
  \<^item> \<open>sdk_stream_get id\<close>: \<open>c.sdk.Stream.Get\<close> followed by \<open>WrapError\<close> on its error
    and \<open>VideoFromSDK\<close> on its value.
\<close>

record env =
  os_open :: "string \<Rightarrow> error + int"
  stat_fault :: "string \<Rightarrow> error option"
  read_fault :: "int \<Rightarrow> error option"
  new_request_fault :: "string \<Rightarrow> error option"
  http_do :: "nat \<Rightarrow> request \<Rightarrow> http_result"
  form_file_fault :: "error option"
  pipe_write_fault :: "int \<Rightarrow> error option"
  json_direct :: "string \<Rightarrow> error + direct_api_resp"
  sdk_stream_get :: "string \<Rightarrow> error + Video"

text \<open>
  The progress channel, seen from the sender: \<open>ready k\<close> tells whether the \<open>k\<close>-th send
  attempted during the call finds the channel ready. A nil channel is \<open>None\<close>.
\<close>

type_synonym chan = "nat \<Rightarrow> bool"

text \<open>
  What one call does to the outside: the requests issued, in order, and the progress
  updates the code tried to send, each with whether it was delivered.
\<close>

record trace =
  requests :: "request list"
  updates :: "(UploadProgress \<times> bool) list"

definition empty_trace :: trace where
  "empty_trace = \<lparr>requests = [], updates = []\<rparr>"

definition add_request :: "request \<Rightarrow> trace \<Rightarrow> trace" where
  "add_request r t = t\<lparr>requests := requests t @ [r]\<rparr>"

text \<open>
  \<open>if progressCh != nil { select { case progressCh <- p: default: } }\<close>: nothing is
  attempted on a nil channel; otherwise the update is delivered when the channel is
  ready and dropped when it is not, and the code goes on in both cases.
\<close>

definition send_progress :: "chan option \<Rightarrow> UploadProgress \<Rightarrow> trace \<Rightarrow> trace" where
  "send_progress ch p t =
     (case ch of
        None \<Rightarrow> t
      | Some ready \<Rightarrow> t\<lparr>updates := updates t @ [(p, ready (length (updates t)))]\<rparr>)"

text \<open>The updates that reached the consumer.\<close>

definition delivered :: "trace \<Rightarrow> UploadProgress list" where
  "delivered t = map fst (filter snd (updates t))"

section \<open>Library functions\<close>

text \<open>
  \<open>file.Read(buffer)\<close> on a regular file: at most \<open>buflen\<close> bytes from the read
  position, which advances; \<open>(0, io.EOF)\<close> at the end of the file.
\<close>

definition file_Read :: "env \<Rightarrow> os_file \<Rightarrow> int \<Rightarrow> int \<times> read_err \<times> os_file" where
  "file_Read e f buflen =
     (case read_fault e (fpos f) of
        Some x \<Rightarrow> (0, RErr x, f)
      | None \<Rightarrow>
          if flen f \<le> fpos f then (0, REOF, f)
          else (min buflen (flen f - fpos f), RNil,
                f\<lparr>fpos := fpos f + min buflen (flen f - fpos f)\<rparr>))"

text \<open>\<open>strings.Split(s, "/")\<close>: never empty, \<open>[""]\<close> for the empty string.\<close>

fun strings_Split :: "string \<Rightarrow> string list" where
  "strings_Split [] = [[]]"
| "strings_Split (x # xs) =
     (if x = CHR ''/'' then [] # strings_Split xs
      else (case strings_Split xs of
              [] \<Rightarrow> [[x]]
            | p # ps \<Rightarrow> (x # p) # ps))"

text \<open>\<open>strings.Join(parts, sep)\<close>.\<close>

fun strings_Join :: "string list \<Rightarrow> string \<Rightarrow> string" where
  "strings_Join [] sep = []"
| "strings_Join [x] sep = x"
| "strings_Join (x # y # ys) sep = x @ sep @ strings_Join (y # ys) sep"

text \<open>\<open>base64.StdEncoding.EncodeToString\<close> on the bytes of a string.\<close>

definition b64digit :: "nat \<Rightarrow> char" where
  "b64digit n =
     (''ABCDEFGHIJKLMNOPQRSTUVWXYZabcdefghijklmnopqrstuvwxyz0123456789+/'') ! n"

fun base64 :: "nat list \<Rightarrow> string" where
  "base64 [] = []"
| "base64 [a] = [b64digit (a div 4), b64digit ((a mod 4) * 16), CHR ''='', CHR ''='']"
| "base64 [a, b] =
     [b64digit (a div 4), b64digit ((a mod 4) * 16 + b div 16),
      b64digit ((b mod 16) * 4), CHR ''='']"
| "base64 (a # b # c # rest) =
     [b64digit (a div 4), b64digit ((a mod 4) * 16 + b div 16),
      b64digit ((b mod 16) * 4 + c div 64), b64digit (c mod 64)] @ base64 rest"

definition EncodeToString :: "string \<Rightarrow> string" where
  "EncodeToString s = base64 (map of_char s)"

section \<open>The resumable (TUS) uploader\<close>

definition chunkSize :: int where
  "chunkSize = 50 * 1024 * 1024"

text \<open>
  The \<open>Upload-Metadata\<close> header value of \<open>tusUploadDirect\<close>: the parts joined by a
  comma, the only part being the name when it is not empty.
\<close>

definition uploadMetadata :: "UploadOptions \<Rightarrow> string" where
  "uploadMetadata opts =
     strings_Join
       (if Name opts \<noteq> [] then [''name '' @ EncodeToString (Name opts)] else [])
       '',''"

text \<open>
  The first part of \<open>tusUploadDirect\<close>, up to the extraction of the video ID: the
  session-open POST and the reading of its \<open>Location\<close> header. It returns the location
  and the video ID.
\<close>

definition tusOpenSession ::
  "env \<Rightarrow> ClientImpl \<Rightarrow> string \<Rightarrow> int \<Rightarrow> UploadOptions \<Rightarrow> trace
     \<Rightarrow> (error + string \<times> string) \<times> trace" where
  "tusOpenSession e c tusURL fileSize opts t =
     (case new_request_fault e tusURL of
        Some x \<Rightarrow> (Inl (Wrap ''failed to create TUS request: %w'' x), t)
      | None \<Rightarrow>
          (let req = TusCreateReq tusURL (''Bearer '' @ apiToken c) fileSize
                       (if uploadMetadata opts \<noteq> [] then Some (uploadMetadata opts)
                        else None);
               t1 = add_request req t
           in case http_do e (length (requests t)) req of
                TransportErr x \<Rightarrow> (Inl (Wrap ''failed to initiate TUS upload: %w'' x), t1)
              | Response r \<Rightarrow>
                  if resp_status r \<noteq> 201
                  then (Inl (StatusMsg ''TUS upload initiation failed with status %d: %s''
                               (resp_status r) (resp_body r)), t1)
                  else if resp_location r = []
                  then (Inl (Msg ''TUS upload location not returned''), t1)
                  else if length (strings_Split (resp_location r)) = 0
                  then (Inl (Msg ''failed to extract video ID from location header''), t1)
                  else (Inr (resp_location r, last (strings_Split (resp_location r))),
                        t1)))"

text \<open>
  The chunk loop of \<open>tusUploadDirect\<close>. It returns the error, if any, and the final
  values of \<open>offset\<close> and of the file.
\<close>

function tusChunkLoop ::
  "env \<Rightarrow> ClientImpl \<Rightarrow> string \<Rightarrow> int \<Rightarrow> chan option \<Rightarrow> os_file \<Rightarrow> int \<Rightarrow> trace
     \<Rightarrow> error option \<times> int \<times> os_file \<times> trace" where
  "tusChunkLoop e c location fileSize ch f offset t =
     (case file_Read e f chunkSize of
        (n, err, f') \<Rightarrow>
          if n = 0 \<and> err = REOF then (None, offset, f', t)
          else
            (case err of
               RErr x \<Rightarrow> (Some (Wrap ''failed to read file: %w'' x), offset, f', t)
             | _ \<Rightarrow>
                 (case new_request_fault e location of
                    Some x \<Rightarrow>
                      (Some (Wrap ''failed to create chunk request: %w'' x), offset, f', t)
                  | None \<Rightarrow>
                      (let req = TusPatchReq location (''Bearer '' @ apiToken c) offset n
                                   (fpos f);
                           t1 = add_request req t
                       in case http_do e (length (requests t)) req of
                            TransportErr x \<Rightarrow>
                              (Some (Wrap ''chunk upload failed: %w'' x), offset, f', t1)
                          | Response r \<Rightarrow>
                              if resp_status r \<noteq> 204
                              then (Some (StatusMsg ''chunk upload failed with status %d: %s''
                                            (resp_status r) (resp_body r)), offset, f', t1)
                              else
                                (let offset' = offset + n;
                                     t2 = send_progress ch
                                            \<lparr>BytesSent = offset', BytesTotal = fileSize\<rparr> t1
                                 in if err = REOF then (None, offset', f', t2)
                                    else tusChunkLoop e c location fileSize ch f' offset'
                                           t2)))))"
  by pat_completeness auto
termination
  by (relation "measure (\<lambda>(e, c, location, fileSize, ch, f, offset, t). nat (flen f - fpos f))")
     (auto simp: file_Read_def chunkSize_def split: option.splits if_splits)

definition tusUploadDirect ::
  "env \<Rightarrow> ClientImpl \<Rightarrow> string \<Rightarrow> os_file \<Rightarrow> int \<Rightarrow> UploadOptions \<Rightarrow> chan option \<Rightarrow> trace
     \<Rightarrow> (error + string) \<times> trace" where
  "tusUploadDirect e c tusURL f fileSize opts ch t =
     (case tusOpenSession e c tusURL fileSize opts t of
        (Inl x, t1) \<Rightarrow> (Inl x, t1)
      | (Inr (location, videoID), t1) \<Rightarrow>
          (case tusChunkLoop e c location fileSize ch f 0 t1 of
             (Some x, offset, f', t2) \<Rightarrow> (Inl x, t2)
           | (None, offset, f', t2) \<Rightarrow> (Inr videoID, t2)))"

section \<open>The single-shot multipart uploader\<close>

text \<open>The 1 MB buffer of the copy loop.\<close>

definition bufferSize :: int where
  "bufferSize = 1024 * 1024"

text \<open>
  The copy loop of the writer goroutine of \<open>multipartUpload\<close>: it returns how the pipe
  was closed, with the value of \<open>written\<close>, and the final state of the file.
\<close>

function copyLoop ::
  "env \<Rightarrow> int \<Rightarrow> chan option \<Rightarrow> os_file \<Rightarrow> int \<Rightarrow> trace \<Rightarrow> pipe_end \<times> os_file \<times> trace" where
  "copyLoop e fileSize ch f written t =
     (case file_Read e f bufferSize of
        (n, err, f') \<Rightarrow>
          (case (if 0 < n
                 then (case pipe_write_fault e written of
                         Some w \<Rightarrow> Inl w
                       | None \<Rightarrow>
                           Inr (written + n,
                                send_progress ch
                                  \<lparr>BytesSent = written + n, BytesTotal = fileSize\<rparr> t))
                 else Inr (written, t)) of
             Inl w \<Rightarrow> (PipeFailed written w, f', t)
           | Inr (written', t1) \<Rightarrow>
               if err = REOF then (PipeClosed written', f', t1)
               else
                 (case err of
                    RErr x \<Rightarrow> (PipeFailed written' x, f', t1)
                  | _ \<Rightarrow> copyLoop e fileSize ch f' written' t1)))"
  by pat_completeness auto
termination
  by (relation "measure (\<lambda>(e, fileSize, ch, f, written, t). nat (flen f - fpos f))")
     (auto simp: file_Read_def bufferSize_def split: option.splits if_splits)

text \<open>
  \<open>multipartUpload\<close>. The writer goroutine and the transport run concurrently in the
  source; here the goroutine runs first and the request records how it closed the pipe, so
  that the response may depend on it. When the request cannot be created nothing reads
  the pipe and the goroutine writes nothing.
\<close>

definition multipartUpload ::
  "env \<Rightarrow> ClientImpl \<Rightarrow> string \<Rightarrow> os_file \<Rightarrow> int \<Rightarrow> UploadOptions \<Rightarrow> chan option \<Rightarrow> trace
     \<Rightarrow> error option \<times> trace" where
  "multipartUpload e c uploadURL f fileSize opts ch t =
     (case new_request_fault e uploadURL of
        Some x \<Rightarrow> (Some (Wrap ''failed to create upload request: %w'' x), t)
      | None \<Rightarrow>
          (case (case form_file_fault e of
                   Some x \<Rightarrow> (PipeFailed 0 x, f, t)
                 | None \<Rightarrow> copyLoop e fileSize ch f 0 t) of
             (body, f', t1) \<Rightarrow>
               (let req = MultipartReq uploadURL (fname f) body;
                    t2 = add_request req t1
                in case http_do e (length (requests t)) req of
                     TransportErr x \<Rightarrow> (Some (Wrap ''upload request failed: %w'' x), t2)
                   | Response r \<Rightarrow>
                       if resp_status r \<noteq> 200 \<and> resp_status r \<noteq> 201
                       then (Some (StatusMsg ''upload failed with status %d: %s''
                                     (resp_status r) (resp_body r)), t2)
                       else (None, t2))))"

section \<open>The Account API\<close>

text \<open>
  \<open>CreateDirectUploadURL\<close>, without the \<open>Expiry\<close> option (a time value, which
  \<open>UploadFile\<close> leaves nil). \<open>json.Marshal\<close> cannot fail on the body built here.
\<close>

definition CreateDirectUploadURL ::
  "env \<Rightarrow> ClientImpl \<Rightarrow> DirectUploadOptions option \<Rightarrow> trace
     \<Rightarrow> (error + DirectUploadResult) \<times> trace" where
  "CreateDirectUploadURL e c opts t =
     (let opts' = (case opts of
                     None \<Rightarrow> \<lparr>MaxDurationSeconds = 0, RequireSignedURLs_d = False\<rparr>
                   | Some v \<Rightarrow> v);
          url = ''https://api.cloudflare.com/client/v4/accounts/'' @ accountID c
                  @ ''/stream/direct_upload''
      in case new_request_fault e url of
           Some x \<Rightarrow> (Inl (Wrap ''failed to create request: %w'' x), t)
         | None \<Rightarrow>
             (let req = DirectUploadReq url (''Bearer '' @ apiToken c)
                          (if 0 < MaxDurationSeconds opts'
                           then Some (MaxDurationSeconds opts') else None)
                          (RequireSignedURLs_d opts');
                  t1 = add_request req t
              in case http_do e (length (requests t)) req of
                   TransportErr x \<Rightarrow> (Inl (Wrap ''failed to execute request: %w'' x), t1)
                 | Response r \<Rightarrow>
                     (case resp_body_err r of
                        Some x \<Rightarrow> (Inl (Wrap ''failed to read response: %w'' x), t1)
                      | None \<Rightarrow>
                          if resp_status r \<noteq> 200
                          then (Inl (StatusMsg ''API request failed with status %d: %s''
                                       (resp_status r) (resp_body r)), t1)
                          else
                            (case json_direct e (resp_body r) of
                               Inl x \<Rightarrow> (Inl (Wrap ''failed to parse response: %w'' x), t1)
                             | Inr a \<Rightarrow>
                                 if \<not> api_success a
                                 then (if 0 < length (api_errors a)
                                       then (Inl (MsgS ''API error: %s'' (hd (api_errors a))),
                                             t1)
                                       else (Inl (Msg ''API request failed''), t1))
                                 else (Inr \<lparr>UploadURL = api_uploadURL a,
                                            UID_d = api_uid a\<rparr>, t1)))))"

definition GetVideo ::
  "env \<Rightarrow> ClientImpl \<Rightarrow> string \<Rightarrow> trace \<Rightarrow> (error + Video) \<times> trace" where
  "GetVideo e c videoID t =
     (if videoID = []
      then (Inl (Wrap ''%w: video ID cannot be empty'' ErrInvalidInput), t)
      else (sdk_stream_get e videoID, add_request (StreamGetReq (accountID c) videoID) t))"

section \<open>The upload orchestrator\<close>

definition tusThreshold :: int where
  "tusThreshold = 200 * 1024 * 1024"

text \<open>
  \<open>UploadFile\<close>. The options are a pointer in the source: \<open>None\<close> is nil. The size is
  the one \<open>file.Stat\<close> reports, the length of the file.
\<close>

definition UploadFile ::
  "env \<Rightarrow> ClientImpl \<Rightarrow> string \<Rightarrow> UploadOptions option \<Rightarrow> chan option
     \<Rightarrow> (error + Video) \<times> trace" where
  "UploadFile e c filePath opts ch =
     (if filePath = []
      then (Inl (Wrap ''%w: file path cannot be empty'' ErrInvalidInput), empty_trace)
      else
        (let opts' = (case opts of None \<Rightarrow> emptyUploadOptions | Some v \<Rightarrow> v)
         in case os_open e filePath of
              Inl x \<Rightarrow> (Inl (Wrap ''failed to open file: %w'' x), empty_trace)
            | Inr len \<Rightarrow>
                (let f = \<lparr>fname = filePath, flen = len, fpos = 0\<rparr>
                 in case stat_fault e filePath of
                      Some x \<Rightarrow> (Inl (Wrap ''failed to get file info: %w'' x), empty_trace)
                    | None \<Rightarrow>
                        (let fileSize = flen f
                         in if tusThreshold \<le> fileSize
                            then
                              (let tusURL = ''https://api.cloudflare.com/client/v4/accounts/''
                                              @ accountID c @ ''/stream''
                               in case tusUploadDirect e c tusURL f fileSize opts' ch
                                         empty_trace of
                                    (Inl x, t1) \<Rightarrow> (Inl (Wrap ''TUS upload failed: %w'' x), t1)
                                  | (Inr videoID, t1) \<Rightarrow>
                                      (case GetVideo e c videoID t1 of
                                         (Inl x, t2) \<Rightarrow>
                                           (Inl (Wrap ''failed to get video details: %w'' x),
                                            t2)
                                       | (Inr video, t2) \<Rightarrow> (Inr video, t2)))
                            else
                              (case CreateDirectUploadURL e c
                                      (Some \<lparr>MaxDurationSeconds = 21600,
                                             RequireSignedURLs_d = True\<rparr>) empty_trace of
                                 (Inl x, t1) \<Rightarrow>
                                   (Inl (Wrap ''failed to create direct upload URL: %w'' x),
                                    t1)
                               | (Inr directResult, t1) \<Rightarrow>
                                   (case multipartUpload e c (UploadURL directResult) f
                                           fileSize opts' ch t1 of
                                      (Some x, t2) \<Rightarrow>
                                        (Inl (Wrap ''upload failed: %w'' x), t2)
                                    | (None, t2) \<Rightarrow>
                                        (case GetVideo e c (UID_d directResult) t2 of
                                           (Inl x, t3) \<Rightarrow>
                                             (Inl (Wrap ''failed to get video details: %w''
                                                     x), t3)
                                         | (Inr video, t3) \<Rightarrow> (Inr video, t3))))))))"

section \<open>Sample environments\<close>

text \<open>
  Concrete environments on which the theorems below are exercised: a file of a given
  length at every path, no local fault, and a server given as a parameter.
\<close>

definition plain_response :: "int \<Rightarrow> string \<Rightarrow> response" where
  "plain_response s loc =
     \<lparr>resp_status = s, resp_location = loc, resp_body = [], resp_body_err = None\<rparr>"

text \<open>A server that accepts everything.\<close>

fun good_server :: "nat \<Rightarrow> request \<Rightarrow> http_result" where
  "good_server k (DirectUploadReq u a m s) = Response (plain_response 200 [])"
| "good_server k (MultipartReq u n b) = Response (plain_response 200 [])"
| "good_server k (TusCreateReq u a n m) =
     Response (plain_response 201
       ''https://api.cloudflare.com/client/v4/accounts/acct/stream/vid42'')"
| "good_server k (TusPatchReq l a off n p) = Response (plain_response 204 [])"
| "good_server k (StreamGetReq a v) = Response (plain_response 200 [])"

text \<open>A server that answers 500 to the chunk at the given offset.\<close>

fun flaky_server :: "int \<Rightarrow> nat \<Rightarrow> request \<Rightarrow> http_result" where
  "flaky_server bad k (TusPatchReq l a off n p) =
     (if off = bad then Response (plain_response 500 [])
      else Response (plain_response 204 []))"
| "flaky_server bad k (DirectUploadReq u a m s) = good_server k (DirectUploadReq u a m s)"
| "flaky_server bad k (MultipartReq u n b) = good_server k (MultipartReq u n b)"
| "flaky_server bad k (TusCreateReq u a n m) = good_server k (TusCreateReq u a n m)"
| "flaky_server bad k (StreamGetReq a v) = good_server k (StreamGetReq a v)"

text \<open>A server that refuses to open a session.\<close>

fun closed_server :: "nat \<Rightarrow> request \<Rightarrow> http_result" where
  "closed_server k (TusCreateReq u a n m) = Response (plain_response 503 [])"
| "closed_server k (DirectUploadReq u a m s) = good_server k (DirectUploadReq u a m s)"
| "closed_server k (MultipartReq u n b) = good_server k (MultipartReq u n b)"
| "closed_server k (TusPatchReq l a off n p) = good_server k (TusPatchReq l a off n p)"
| "closed_server k (StreamGetReq a v) = good_server k (StreamGetReq a v)"

definition sample_env :: "int \<Rightarrow> (nat \<Rightarrow> request \<Rightarrow> http_result) \<Rightarrow> env" where
  "sample_env len server =
     \<lparr>os_open = (\<lambda>p. Inr len),
      stat_fault = (\<lambda>p. None),
      read_fault = (\<lambda>p. None),
      new_request_fault = (\<lambda>u. None),
      http_do = server,
      form_file_fault = None,
      pipe_write_fault = (\<lambda>w. None),
      json_direct = (\<lambda>b. Inr \<lparr>api_success = True, api_errors = [],
                                 api_uploadURL = ''https://upload.example/u1'',
                                 api_uid = ''u1''\<rparr>),
      sdk_stream_get = (\<lambda>i. Inr \<lparr>UID = i, VideoName = i, Status = ''queued'',
                                    ReadyToStream = False\<rparr>)\<rparr>"

definition sample_client :: ClientImpl where
  "sample_client = \<lparr>accountID = ''acct'', apiToken = ''tok''\<rparr>"

definition sample_file :: "int \<Rightarrow> os_file" where
  "sample_file len = \<lparr>fname = ''a.mp4'', flen = len, fpos = 0\<rparr>"

section \<open>Facts about the chunk loop\<close>

declare tusChunkLoop.simps [simp del] copyLoop.simps [simp del]

lemma chunkSize_pos: "0 < chunkSize" by (simp add: chunkSize_def)
lemma bufferSize_pos: "0 < bufferSize" by (simp add: bufferSize_def)

text \<open>The request of one iteration, and the file after a read of at most \<open>buflen\<close> bytes.\<close>

definition patchReq :: "ClientImpl \<Rightarrow> string \<Rightarrow> os_file \<Rightarrow> int \<Rightarrow> request" where
  "patchReq c location f offset =
     TusPatchReq location (''Bearer '' @ apiToken c) offset
       (min chunkSize (flen f - fpos f)) (fpos f)"

definition advance :: "os_file \<Rightarrow> int \<Rightarrow> os_file" where
  "advance f buflen = f\<lparr>fpos := fpos f + min buflen (flen f - fpos f)\<rparr>"

text \<open>One iteration of the chunk loop, by the way it ends.\<close>

lemma tusChunkLoop_cases [case_names eof read_err new_request transport status ok]:
  obtains
    (eof) "read_fault e (fpos f) = None" "flen f \<le> fpos f"
      "tusChunkLoop e c location fileSize ch f offset t = (None, offset, f, t)"
  | (read_err) x where "read_fault e (fpos f) = Some x"
      "tusChunkLoop e c location fileSize ch f offset t
         = (Some (Wrap ''failed to read file: %w'' x), offset, f, t)"
  | (new_request) x where "fpos f < flen f" "new_request_fault e location = Some x"
      "tusChunkLoop e c location fileSize ch f offset t
         = (Some (Wrap ''failed to create chunk request: %w'' x), offset,
            advance f chunkSize, t)"
      "read_fault e (fpos f) = None"
  | (transport) x where "fpos f < flen f"
      "http_do e (length (requests t)) (patchReq c location f offset) = TransportErr x"
      "tusChunkLoop e c location fileSize ch f offset t
         = (Some (Wrap ''chunk upload failed: %w'' x), offset, advance f chunkSize,
            add_request (patchReq c location f offset) t)"
      "read_fault e (fpos f) = None" "new_request_fault e location = None"
  | (status) r where "fpos f < flen f"
      "http_do e (length (requests t)) (patchReq c location f offset) = Response r"
      "resp_status r \<noteq> 204"
      "tusChunkLoop e c location fileSize ch f offset t
         = (Some (StatusMsg ''chunk upload failed with status %d: %s'' (resp_status r)
                    (resp_body r)), offset, advance f chunkSize,
            add_request (patchReq c location f offset) t)"
      "read_fault e (fpos f) = None" "new_request_fault e location = None"
  | (ok) r where "fpos f < flen f"
      "http_do e (length (requests t)) (patchReq c location f offset) = Response r"
      "resp_status r = 204"
      "tusChunkLoop e c location fileSize ch f offset t
         = tusChunkLoop e c location fileSize ch (advance f chunkSize)
             (offset + min chunkSize (flen f - fpos f))
             (send_progress ch
                \<lparr>BytesSent = offset + min chunkSize (flen f - fpos f),
                 BytesTotal = fileSize\<rparr>
                (add_request (patchReq c location f offset) t))"
      "read_fault e (fpos f) = None" "new_request_fault e location = None"
proof (cases "read_fault e (fpos f)")
  case (Some x)
  then have "tusChunkLoop e c location fileSize ch f offset t
         = (Some (Wrap ''failed to read file: %w'' x), offset, f, t)"
    by (simp add: tusChunkLoop.simps [of e c location fileSize ch f offset t] file_Read_def)
  with Some show thesis by (rule read_err)
next
  case None
  show thesis
  proof (cases "flen f \<le> fpos f")
    case True
    with None have "tusChunkLoop e c location fileSize ch f offset t = (None, offset, f, t)"
      by (simp add: tusChunkLoop.simps [of e c location fileSize ch f offset t] file_Read_def)
    with None True show thesis by (rule eof)
  next
    case False
    then have lt: "fpos f < flen f" by simp
    then have n: "min chunkSize (flen f - fpos f) \<noteq> 0"
      using chunkSize_pos by simp
    have rd: "file_Read e f chunkSize
                = (min chunkSize (flen f - fpos f), RNil, advance f chunkSize)"
      using None False by (simp add: file_Read_def advance_def)
    show thesis
    proof (cases "new_request_fault e location")
      case (Some x)
      then have "tusChunkLoop e c location fileSize ch f offset t
         = (Some (Wrap ''failed to create chunk request: %w'' x), offset,
            advance f chunkSize, t)"
        using n by (simp add: tusChunkLoop.simps [of e c location fileSize ch f offset t] rd)
      with lt Some show thesis using None by (rule new_request)
    next
      case nr: None
      show thesis
      proof (cases "http_do e (length (requests t)) (patchReq c location f offset)")
        case (TransportErr x)
        then have "tusChunkLoop e c location fileSize ch f offset t
         = (Some (Wrap ''chunk upload failed: %w'' x), offset, advance f chunkSize,
            add_request (patchReq c location f offset) t)"
          using n nr
          by (simp add: tusChunkLoop.simps [of e c location fileSize ch f offset t] rd
                patchReq_def)
        with lt TransportErr show thesis using None nr by (rule transport)
      next
        case (Response r)
        show thesis
        proof (cases "resp_status r = 204")
          case True
          then have "tusChunkLoop e c location fileSize ch f offset t
         = tusChunkLoop e c location fileSize ch (advance f chunkSize)
             (offset + min chunkSize (flen f - fpos f))
             (send_progress ch
                \<lparr>BytesSent = offset + min chunkSize (flen f - fpos f),
                 BytesTotal = fileSize\<rparr>
                (add_request (patchReq c location f offset) t))"
            using n nr Response
            by (simp add: tusChunkLoop.simps [of e c location fileSize ch f offset t] rd
                  patchReq_def Let_def)
          with lt Response True show thesis using None nr by (rule ok)
        next
          case False
          then have "tusChunkLoop e c location fileSize ch f offset t
         = (Some (StatusMsg ''chunk upload failed with status %d: %s'' (resp_status r)
                    (resp_body r)), offset, advance f chunkSize,
            add_request (patchReq c location f offset) t)"
            using n nr Response
            by (simp add: tusChunkLoop.simps [of e c location fileSize ch f offset t] rd
                  patchReq_def)
          with lt Response False show thesis using None nr by (rule status)
        qed
      qed
    qed
  qed
qed

text \<open>
  The schedule the specification describes: the \<open>k\<close>-th chunk of a transfer that starts
  at \<open>offset\<close> with \<open>rest\<close> bytes left, and the number of chunks, the ceiling of
  \<open>rest / chunkSize\<close>.
\<close>

definition nth_chunk :: "ClientImpl \<Rightarrow> string \<Rightarrow> int \<Rightarrow> int \<Rightarrow> int \<Rightarrow> nat \<Rightarrow> request" where
  "nth_chunk c location offset pos rest k =
     TusPatchReq location (''Bearer '' @ apiToken c) (offset + int k * chunkSize)
       (min chunkSize (rest - int k * chunkSize)) (pos + int k * chunkSize)"

definition chunk_count :: "int \<Rightarrow> nat" where
  "chunk_count rest = nat ((rest + chunkSize - 1) div chunkSize)"

lemma ceil_div_shift:
  fixes C :: int
  assumes "0 < C"
  shows "(r + C - 1) div C = (r - 1) div C + 1"
proof -
  have e: "r + C - 1 = (r - 1) + C" by simp
  have "((r - 1) + C) div C = (r - 1) div C + 1"
    using assms by (intro div_add_self2) simp
  then show ?thesis by (simp only: e)
qed

lemma chunk_count_nonpos: "rest \<le> 0 \<Longrightarrow> chunk_count rest = 0"
proof -
  assume "rest \<le> 0"
  then have "rest - 1 < 0" by simp
  then have "(rest - 1) div chunkSize < 0"
    using chunkSize_pos by (simp add: div_neg_pos_less0)
  then show ?thesis
    using ceil_div_shift [OF chunkSize_pos, of rest] by (simp add: chunk_count_def)
qed

lemma chunk_count_small:
  assumes "0 < rest" "rest \<le> chunkSize"
  shows "chunk_count rest = 1"
proof -
  have "(rest - 1) div chunkSize = 0"
    using assms by (simp add: div_pos_pos_trivial)
  then show ?thesis
    using ceil_div_shift [OF chunkSize_pos, of rest] by (simp add: chunk_count_def)
qed

lemma chunk_count_large:
  assumes "chunkSize \<le> rest"
  shows "chunk_count rest = Suc (chunk_count (rest - chunkSize))"
proof -
  have a: "0 \<le> (rest - chunkSize + chunkSize - 1) div chunkSize"
    using assms chunkSize_pos by (simp add: pos_imp_zdiv_nonneg_iff)
  have "(rest + chunkSize - 1) div chunkSize
          = (rest - chunkSize + chunkSize - 1) div chunkSize + 1"
    using ceil_div_shift [OF chunkSize_pos, of rest] by simp
  with a show ?thesis by (simp add: chunk_count_def nat_add_distrib)
qed

lemma neg_div_ceil:
  fixes C :: int
  assumes "0 < C"
  shows "- (- n div C) = (n + C - 1) div C"
proof -
  define q where "q = (n - 1) div C"
  define r where "r = (n - 1) mod C"
  have n: "n - 1 = q * C + r" by (simp add: q_def r_def)
  have r: "0 \<le> r" "r < C" using assms by (simp_all add: r_def)
  have "- n = (C - r - 1) + (- (q + 1)) * C" using n by (simp add: algebra_simps)
  then have "- n div C = (- (q + 1)) + (C - r - 1) div C"
    using assms by (metis div_mult_self1 less_irrefl)
  moreover have "(C - r - 1) div C = 0" using r by (simp add: div_pos_pos_trivial)
  ultimately have "- (- n div C) = q + 1" by simp
  then show ?thesis using ceil_div_shift [OF assms, of n] by (simp add: q_def)
qed

lemma chunk_count_ceiling:
  "chunk_count n = nat \<lceil>real_of_int n / real_of_int chunkSize\<rceil>"
proof -
  have "\<lceil>real_of_int n / real_of_int chunkSize\<rceil> = - (- n div chunkSize)"
    by (rule ceiling_divide_eq_div)
  then show ?thesis
    using neg_div_ceil [OF chunkSize_pos, of n] by (simp add: chunk_count_def)
qed

lemma map_upt_Suc_shift: "map g [0..<Suc j] = g 0 # map (\<lambda>k. g (Suc k)) [0..<j]"
proof -
  have "[0..<Suc j] = 0 # map Suc [0..<j]"
    by (simp only: map_Suc_upt) (simp add: upt_conv_Cons)
  then show ?thesis by (simp add: o_def)
qed

lemma requests_send_progress [simp]: "requests (send_progress ch p t) = requests t"
  by (simp add: send_progress_def split: option.splits)

lemma requests_add_request [simp]: "requests (add_request r t) = requests t @ [r]"
  by (simp add: add_request_def)

lemma updates_add_request [simp]: "updates (add_request r t) = updates t"
  by (simp add: add_request_def)

lemma advance_simps [simp]:
  "flen (advance f b) = flen f" "fname (advance f b) = fname f"
  "fpos (advance f b) = fpos f + min b (flen f - fpos f)"
  by (simp_all add: advance_def)

lemma patchReq_nth_chunk: "patchReq c location f offset
    = nth_chunk c location offset (fpos f) (flen f - fpos f) 0"
  by (simp add: patchReq_def nth_chunk_def)

lemma tusChunkLoop_requests:
  "tusChunkLoop e c location fileSize ch f offset t = (res, offset', f', t') \<Longrightarrow>
   \<exists>j\<le>chunk_count (flen f - fpos f).
      requests t' = requests t
         @ map (nth_chunk c location offset (fpos f) (flen f - fpos f)) [0..<j]
      \<and> (res = None \<longrightarrow> j = chunk_count (flen f - fpos f))"
proof (induction "nat (flen f - fpos f)" arbitrary: f offset t rule: less_induct)
  case less
  let ?R = "flen f - fpos f"
  note run = less.prems
  show ?case
  proof (cases rule: tusChunkLoop_cases [where e=e and f=f and t=t and c=c and location=location
      and fileSize=fileSize and ch=ch and offset=offset])
    case eof
    with run have "t' = t" "res = None" by simp_all
    moreover have "chunk_count ?R = 0" using eof by (simp add: chunk_count_nonpos)
    ultimately show ?thesis by simp
  next
    case (read_err x)
    with run have "t' = t" "res \<noteq> None" by auto
    then show ?thesis by (intro exI [of _ 0]) auto
  next
    case (new_request x)
    with run have "t' = t" "res \<noteq> None" by auto
    then show ?thesis by (intro exI [of _ 0]) auto
  next
    case (transport x)
    with run have t': "t' = add_request (patchReq c location f offset) t" and "res \<noteq> None"
      by auto
    moreover have "1 \<le> chunk_count ?R"
    proof (cases "chunkSize \<le> ?R")
      case True then show ?thesis by (simp add: chunk_count_large)
    next
      case False then show ?thesis using transport(1) by (simp add: chunk_count_small)
    qed
    ultimately show ?thesis
      by (intro exI [of _ 1]) (auto simp: patchReq_nth_chunk)
  next
    case (status r)
    with run have t': "t' = add_request (patchReq c location f offset) t" and "res \<noteq> None"
      by auto
    moreover have "1 \<le> chunk_count ?R"
    proof (cases "chunkSize \<le> ?R")
      case True then show ?thesis by (simp add: chunk_count_large)
    next
      case False then show ?thesis using status(1) by (simp add: chunk_count_small)
    qed
    ultimately show ?thesis
      by (intro exI [of _ 1]) (auto simp: patchReq_nth_chunk)
  next
    case (ok r)
    let ?n = "min chunkSize ?R"
    let ?f2 = "advance f chunkSize"
    let ?t2 = "send_progress ch \<lparr>BytesSent = offset + ?n, BytesTotal = fileSize\<rparr>
                 (add_request (patchReq c location f offset) t)"
    have npos: "0 < ?n" using ok(1) chunkSize_pos by simp
    have R2: "flen ?f2 - fpos ?f2 = ?R - ?n" by simp
    have dec: "nat (flen ?f2 - fpos ?f2) < nat ?R" using npos ok(1) by simp
    have run2: "tusChunkLoop e c location fileSize ch ?f2 (offset + ?n) ?t2
                  = (res, offset', f', t')"
      using run ok(4) by simp
    from less.hyps [OF dec run2] obtain j where
      j: "j \<le> chunk_count (?R - ?n)"
      and rq: "requests t' = requests ?t2
                 @ map (nth_chunk c location (offset + ?n) (fpos ?f2) (?R - ?n)) [0..<j]"
      and fin: "res = None \<longrightarrow> j = chunk_count (?R - ?n)"
      unfolding R2 by blast
    have cc: "chunk_count ?R = Suc (chunk_count (?R - ?n))"
    proof (cases "chunkSize \<le> ?R")
      case True then show ?thesis by (simp add: chunk_count_large min_def)
    next
      case False
      then show ?thesis
        using ok(1) by (simp add: chunk_count_small chunk_count_nonpos min_def)
    qed
    have shift: "map (nth_chunk c location (offset + ?n) (fpos ?f2) (?R - ?n)) [0..<j]
                   = map (\<lambda>k. nth_chunk c location offset (fpos f) ?R (Suc k)) [0..<j]"
    proof (cases "chunkSize \<le> ?R")
      case True
      then have "?n = chunkSize" by simp
      then show ?thesis by (simp add: nth_chunk_def algebra_simps)
    next
      case False
      then have "chunk_count (?R - ?n) = 0" by (simp add: chunk_count_nonpos min_def)
      with j show ?thesis by simp
    qed
    have "requests t' = requests t
            @ map (nth_chunk c location offset (fpos f) ?R) [0..<Suc j]"
      unfolding map_upt_Suc_shift using rq shift by (simp add: patchReq_nth_chunk)
    moreover have "Suc j \<le> chunk_count ?R" using j cc by simp
    moreover have "res = None \<longrightarrow> Suc j = chunk_count ?R" using fin cc by simp
    ultimately show ?thesis by blast
  qed
qed

section \<open>Evaluation on the sample environments\<close>

lemmas run_defs =
  UploadFile_def sample_env_def sample_client_def tusThreshold_def chunkSize_def
  bufferSize_def CreateDirectUploadURL_def multipartUpload_def GetVideo_def
  tusUploadDirect_def tusOpenSession_def file_Read_def add_request_def send_progress_def
  empty_trace_def plain_response_def uploadMetadata_def emptyUploadOptions_def
  EncodeToString_def b64digit_def sample_file_def

section \<open>Nil options\<close>

text \<open>
  Claim C10. Calling \<open>UploadFile\<close> with a nil \<open>UploadOptions\<close> pointer is the same as
  calling it with the empty options value: the result and everything the call does to
  the outside are equal, for every environment, client, path and channel. In
  particular nil options are never a cause of failure.
\<close>

theorem UploadFile_nil_options:
  "UploadFile e c filePath None ch = UploadFile e c filePath (Some emptyUploadOptions) ch"
  by (simp add: UploadFile_def)

theorem UploadFile_nil_options_witness:
  "fst (UploadFile (sample_env 3 good_server) sample_client ''a.mp4'' None None)
     = Inr \<lparr>UID = ''u1'', VideoName = ''u1'', Status = ''queued'', ReadyToStream = False\<rparr>
   \<and> UploadFile (sample_env 3 good_server) sample_client ''a.mp4'' None None
     = UploadFile (sample_env 3 good_server) sample_client ''a.mp4''
         (Some emptyUploadOptions) None"
  using UploadFile_nil_options [of "sample_env 3 good_server" sample_client "''a.mp4''" None]
  by (simp add: run_defs copyLoop.simps)

section \<open>The chunk schedule of the resumable uploader\<close>

text \<open>
  The chunk sends of a trace: the \<open>Upload-Offset\<close> and \<open>Content-Length\<close> of its
  PATCH requests, in order.
\<close>

fun chunk_sends :: "request list \<Rightarrow> (int \<times> int) list" where
  "chunk_sends [] = []"
| "chunk_sends (TusPatchReq l a off n p # rs) = (off, n) # chunk_sends rs"
| "chunk_sends (DirectUploadReq u a m s # rs) = chunk_sends rs"
| "chunk_sends (MultipartReq u n b # rs) = chunk_sends rs"
| "chunk_sends (TusCreateReq u a n m # rs) = chunk_sends rs"
| "chunk_sends (StreamGetReq a v # rs) = chunk_sends rs"

lemma chunk_sends_append: "chunk_sends (xs @ ys) = chunk_sends xs @ chunk_sends ys"
  by (induction xs rule: chunk_sends.induct) simp_all

lemma chunk_sends_schedule:
  "chunk_sends (map (nth_chunk c location offset pos rest) ks)
     = map (\<lambda>k. (offset + int k * chunkSize, min chunkSize (rest - int k * chunkSize))) ks"
  by (induction ks) (simp_all add: nth_chunk_def)

lemma last_chunk_len:
  fixes C :: int
  assumes "0 < C"
  shows "(n - 1) mod C + 1 = (if n mod C = 0 then C else n mod C)"
proof -
  define q where "q = (n - 1) div C"
  define r where "r = (n - 1) mod C"
  have n: "n = (r + 1) + q * C" using div_mult_mod_eq [of "n - 1" C] by (simp add: q_def r_def)
  have r: "0 \<le> r" "r < C" using assms by (simp_all add: r_def)
  have m: "n mod C = (r + 1) mod C" by (subst n) simp
  show ?thesis
  proof (cases "r + 1 = C")
    case True
    then show ?thesis using m by (simp add: r_def)
  next
    case False
    then have "(r + 1) mod C = r + 1" using r by (simp add: mod_pos_pos_trivial)
    then show ?thesis using m r by (simp add: r_def)
  qed
qed

lemma tusOpenSession_requests:
  "tusOpenSession e c tusURL fileSize opts t = (Inr (location, videoID), t1) \<Longrightarrow>
   requests t1 = requests t
      @ [TusCreateReq tusURL (''Bearer '' @ apiToken c) fileSize
           (if uploadMetadata opts \<noteq> [] then Some (uploadMetadata opts) else None)]
   \<and> updates t1 = updates t"
  by (auto simp: tusOpenSession_def Let_def split: option.splits http_result.splits if_splits)

lemma tusUploadDirect_schedule:
  assumes run: "tusUploadDirect e c tusURL f fileSize opts ch t = (Inr videoID, t')"
  shows "chunk_sends (requests t') = chunk_sends (requests t)
     @ map (\<lambda>k. (int k * chunkSize,
                  min chunkSize (flen f - fpos f - int k * chunkSize)))
         [0..<chunk_count (flen f - fpos f)]"
proof -
  from run obtain location t1 where
    op: "tusOpenSession e c tusURL fileSize opts t = (Inr (location, videoID), t1)"
    by (auto simp: tusUploadDirect_def split: prod.splits sum.splits option.splits)
  with run obtain offset' f' where
    lp: "tusChunkLoop e c location fileSize ch f 0 t1 = (None, offset', f', t')"
    by (auto simp: tusUploadDirect_def split: prod.splits sum.splits option.splits)
  from tusChunkLoop_requests [OF lp] have
    "requests t' = requests t1
       @ map (nth_chunk c location 0 (fpos f) (flen f - fpos f))
           [0..<chunk_count (flen f - fpos f)]"
    by auto
  then show ?thesis
    using tusOpenSession_requests [OF op]
    by (simp add: chunk_sends_append chunk_sends_schedule)
qed

text \<open>
  Claim C1. When \<open>tusUploadDirect\<close> uploads a file of \<open>fileSize\<close> bytes (it is given
  the file at position 0, the size is the length of the file, and it returns a video ID),
  it has sent exactly \<open>ceil (fileSize / chunkSize)\<close> PATCH requests; their
  \<open>Upload-Offset\<close> values are \<open>0, chunkSize, 2 * chunkSize, \<dots>\<close> in order; every
  chunk but the last has length \<open>chunkSize\<close>; and the last has length
  \<open>fileSize mod chunkSize\<close>, or \<open>chunkSize\<close> when \<open>fileSize\<close> is a multiple of it.
\<close>

theorem tus_chunk_schedule:
  assumes run: "tusUploadDirect e c tusURL f fileSize opts ch empty_trace = (Inr videoID, t')"
    and len: "flen f = fileSize" and pos: "fpos f = 0"
  shows "length (chunk_sends (requests t'))
           = nat \<lceil>real_of_int fileSize / real_of_int chunkSize\<rceil>
       \<and> map fst (chunk_sends (requests t'))
           = map (\<lambda>k. int k * chunkSize) [0..<length (chunk_sends (requests t'))]
       \<and> (\<forall>k. Suc k < length (chunk_sends (requests t'))
              \<longrightarrow> snd (chunk_sends (requests t') ! k) = chunkSize)
       \<and> (chunk_sends (requests t') \<noteq> []
            \<longrightarrow> snd (last (chunk_sends (requests t')))
                  = (if fileSize mod chunkSize = 0 then chunkSize
                     else fileSize mod chunkSize))"
proof -
  let ?m = "chunk_count fileSize"
  let ?g = "\<lambda>k. (int k * chunkSize, min chunkSize (fileSize - int k * chunkSize))"
  have cs: "chunk_sends (requests t') = map ?g [0..<?m]"
    using tusUploadDirect_schedule [OF run] len pos by (simp add: empty_trace_def)
  have m: "int ?m = (if 0 < fileSize then (fileSize - 1) div chunkSize + 1 else 0)"
  proof (cases "0 < fileSize")
    case True
    then have "0 \<le> (fileSize - 1) div chunkSize"
      using chunkSize_pos by (simp add: pos_imp_zdiv_nonneg_iff)
    then show ?thesis
      using True ceil_div_shift [OF chunkSize_pos, of fileSize] by (simp add: chunk_count_def)
  next
    case False
    then show ?thesis by (simp add: chunk_count_nonpos)
  qed
  have l: "length (chunk_sends (requests t')) = ?m" by (simp add: cs)
  have a: "length (chunk_sends (requests t'))
             = nat \<lceil>real_of_int fileSize / real_of_int chunkSize\<rceil>"
    unfolding l by (rule chunk_count_ceiling)
  have b: "map fst (chunk_sends (requests t'))
             = map (\<lambda>k. int k * chunkSize) [0..<length (chunk_sends (requests t'))]"
    unfolding l by (simp add: cs o_def)
  have c: "snd (chunk_sends (requests t') ! k) = chunkSize"
    if k: "Suc k < length (chunk_sends (requests t'))" for k
  proof -
    from k have km: "Suc k < ?m" by (simp add: l)
    then have pos: "0 < fileSize" using m by (cases "0 < fileSize") simp_all
    from km have "int (Suc k) \<le> (fileSize - 1) div chunkSize" using m pos by simp
    then have "int (Suc k) * chunkSize \<le> (fileSize - 1) div chunkSize * chunkSize"
      using chunkSize_pos by (simp add: mult_right_mono)
    also have "\<dots> \<le> fileSize - 1"
      using chunkSize_pos div_mult_mod_eq [of "fileSize - 1" chunkSize]
            pos_mod_sign [of chunkSize "fileSize - 1"] by linarith
    finally have "chunkSize \<le> fileSize - int k * chunkSize" by (simp add: algebra_simps)
    then show ?thesis using km by (simp add: cs)
  qed
  have d: "snd (last (chunk_sends (requests t')))
             = (if fileSize mod chunkSize = 0 then chunkSize else fileSize mod chunkSize)"
    if ne: "chunk_sends (requests t') \<noteq> []"
  proof -
    from ne have mp: "0 < ?m" by (simp add: cs)
    then have pos: "0 < fileSize" using m by (cases "0 < fileSize") simp_all
    have k: "int (?m - 1) = (fileSize - 1) div chunkSize" using m pos mp by simp
    have "last (chunk_sends (requests t')) = ?g (?m - 1)"
      using mp by (simp add: cs last_map last_upt)
    then have "snd (last (chunk_sends (requests t')))
                 = min chunkSize (fileSize - (fileSize - 1) div chunkSize * chunkSize)"
      using k by simp
    also have "fileSize - (fileSize - 1) div chunkSize * chunkSize
                 = (fileSize - 1) mod chunkSize + 1"
      using div_mult_mod_eq [of "fileSize - 1" chunkSize] by linarith
    also have "min chunkSize ((fileSize - 1) mod chunkSize + 1)
                 = (fileSize - 1) mod chunkSize + 1"
    proof -
      have "(fileSize - 1) mod chunkSize < chunkSize"
        using chunkSize_pos by (rule pos_mod_bound)
      then show ?thesis by (simp add: min_def)
    qed
    finally show ?thesis using last_chunk_len [OF chunkSize_pos, of fileSize] by simp
  qed
  from a b c d show ?thesis by blast
qed

text \<open>A file of 220 MiB goes in five chunks, the last of 20 MiB.\<close>

definition sample_tus_url :: string where
  "sample_tus_url = ''https://api.cloudflare.com/client/v4/accounts/acct/stream''"

theorem tus_chunk_schedule_witness:
  "fst (tusUploadDirect (sample_env 230686720 good_server) sample_client
          sample_tus_url (sample_file 230686720) 230686720
          emptyUploadOptions None empty_trace) = Inr ''vid42''
   \<and> flen (sample_file 230686720) = 230686720
   \<and> fpos (sample_file 230686720) = 0
   \<and> chunk_sends (requests (snd (tusUploadDirect
          (sample_env 230686720 good_server) sample_client
          sample_tus_url (sample_file 230686720) 230686720
          emptyUploadOptions None empty_trace)))
       = [(0, 52428800), (52428800, 52428800), (104857600, 52428800),
          (157286400, 52428800), (209715200, 20971520)]
   \<and> length (chunk_sends (requests (snd (tusUploadDirect
          (sample_env 230686720 good_server) sample_client
          sample_tus_url (sample_file 230686720) 230686720
          emptyUploadOptions None empty_trace))))
       = nat \<lceil>real_of_int 230686720 / real_of_int chunkSize\<rceil>"
proof -
  let ?R = "tusUploadDirect (sample_env 230686720 good_server) sample_client
          sample_tus_url (sample_file 230686720) 230686720
          emptyUploadOptions None empty_trace"
  have r: "?R = (Inr ''vid42'',
      \<lparr>requests =
         [TusCreateReq ''https://api.cloudflare.com/client/v4/accounts/acct/stream''
            ''Bearer tok'' 230686720 None,
          TusPatchReq ''https://api.cloudflare.com/client/v4/accounts/acct/stream/vid42''
            ''Bearer tok'' 0 52428800 0,
          TusPatchReq ''https://api.cloudflare.com/client/v4/accounts/acct/stream/vid42''
            ''Bearer tok'' 52428800 52428800 52428800,
          TusPatchReq ''https://api.cloudflare.com/client/v4/accounts/acct/stream/vid42''
            ''Bearer tok'' 104857600 52428800 104857600,
          TusPatchReq ''https://api.cloudflare.com/client/v4/accounts/acct/stream/vid42''
            ''Bearer tok'' 157286400 52428800 157286400,
          TusPatchReq ''https://api.cloudflare.com/client/v4/accounts/acct/stream/vid42''
            ''Bearer tok'' 209715200 20971520 209715200],
       updates = []\<rparr>)"
    by (simp add: run_defs sample_tus_url_def tusChunkLoop.simps)
  have run: "?R = (Inr ''vid42'', snd ?R)" by (simp add: r)
  have len: "flen (sample_file 230686720) = 230686720"
    by (simp add: sample_file_def)
  have pos: "fpos (sample_file 230686720) = 0" by (simp add: sample_file_def)
  show ?thesis
    using tus_chunk_schedule [OF run len pos] len pos by (simp add: r)
qed

section \<open>A refused chunk\<close>

text \<open>
  A request of the loop that was answered with a status other than 204 is the last
  request of the loop, and \<open>offset\<close> still has the value sent with it.
\<close>

lemma tusChunkLoop_bad_status:
  "tusChunkLoop e c location fileSize ch f offset t = (res, offset', f', t') \<Longrightarrow>
   length (requests t) \<le> i \<Longrightarrow> i < length (requests t') \<Longrightarrow>
   http_do e i (requests t' ! i) = Response r \<Longrightarrow> resp_status r \<noteq> 204 \<Longrightarrow>
   res = Some (StatusMsg ''chunk upload failed with status %d: %s'' (resp_status r)
                 (resp_body r))
   \<and> Suc i = length (requests t')
   \<and> (\<exists>n p. requests t' ! i
          = TusPatchReq location (''Bearer '' @ apiToken c) offset' n p)"
proof (induction "nat (flen f - fpos f)" arbitrary: f offset t rule: less_induct)
  case less
  note run = less.prems(1) and lo = less.prems(2) and hi = less.prems(3)
    and resp = less.prems(4) and bad = less.prems(5)
  show ?case
  proof (cases rule: tusChunkLoop_cases [where e=e and f=f and t=t and c=c
      and location=location and fileSize=fileSize and ch=ch and offset=offset])
    case eof
    with run have "t' = t" by auto
    with lo hi show ?thesis by simp
  next
    case (read_err x)
    with run have "t' = t" by auto
    with lo hi show ?thesis by simp
  next
    case (new_request x)
    with run have "t' = t" by auto
    with lo hi show ?thesis by simp
  next
    case (transport x)
    with run have t': "t' = add_request (patchReq c location f offset) t" by auto
    with lo hi have "i = length (requests t)" by simp
    with resp t' transport(2) show ?thesis by simp
  next
    case (status r0)
    with run have t': "t' = add_request (patchReq c location f offset) t"
      and res: "res = Some (StatusMsg ''chunk upload failed with status %d: %s''
                              (resp_status r0) (resp_body r0))"
      and off: "offset' = offset" by auto
    from t' lo hi have i: "i = length (requests t)" by simp
    with resp t' status(2) have "r = r0" by simp
    with res off i t' show ?thesis by (simp add: patchReq_def)
  next
    case (ok r0)
    let ?n = "min chunkSize (flen f - fpos f)"
    let ?f2 = "advance f chunkSize"
    let ?t2 = "send_progress ch \<lparr>BytesSent = offset + ?n, BytesTotal = fileSize\<rparr>
                 (add_request (patchReq c location f offset) t)"
    have dec: "nat (flen ?f2 - fpos ?f2) < nat (flen f - fpos f)"
      using ok(1) chunkSize_pos by simp
    have run2: "tusChunkLoop e c location fileSize ch ?f2 (offset + ?n) ?t2
                  = (res, offset', f', t')"
      using run ok(4) by simp
    from tusChunkLoop_requests [OF run2] obtain xs where
      rq: "requests t' = (requests t @ [patchReq c location f offset]) @ xs"
      by auto
    show ?thesis
    proof (cases "i = length (requests t)")
      case True
      then have "requests t' ! i = patchReq c location f offset"
        by (simp add: rq nth_append)
      with resp True ok(2) have "r = r0" by simp
      with bad ok(3) show ?thesis by simp
    next
      case False
      with lo have lo2: "length (requests ?t2) \<le> i" by simp
      from less.hyps [OF dec run2 lo2 hi resp bad] show ?thesis .
    qed
  qed
qed


text \<open>
  Claim C5. Take a run of \<open>tusUploadDirect\<close> whose session was opened, and any request
  of its chunk loop (the \<open>i\<close>-th request of the call) that the server answered with a
  status other than 204. Then \<open>tusUploadDirect\<close> returns the error
  \<open>chunk upload failed with status \<dots>\<close> carrying that status and body (the
  transport failure of the specification), that request is the last one of the call (no
  further chunk is sent), and the final value of \<open>offset\<close> is the
  \<open>Upload-Offset\<close> of the refused chunk: it was not advanced.
\<close>

theorem tus_chunk_failure_aborts:
  assumes op: "tusOpenSession e c tusURL fileSize opts t0 = (Inr (location, videoID), t)"
    and run: "tusChunkLoop e c location fileSize ch f 0 t = (res, offset', f', t')"
    and lo: "length (requests t) \<le> i" and hi: "i < length (requests t')"
    and resp: "http_do e i (requests t' ! i) = Response r"
    and bad: "resp_status r \<noteq> 204"
  shows "tusUploadDirect e c tusURL f fileSize opts ch t0
           = (Inl (StatusMsg ''chunk upload failed with status %d: %s'' (resp_status r)
                     (resp_body r)), t')
       \<and> Suc i = length (requests t')
       \<and> (\<exists>n p. requests t' ! i
              = TusPatchReq location (''Bearer '' @ apiToken c) offset' n p)"
proof -
  from tusChunkLoop_bad_status [OF run lo hi resp bad] have
    res: "res = Some (StatusMsg ''chunk upload failed with status %d: %s'' (resp_status r)
                       (resp_body r))"
    and rest: "Suc i = length (requests t')"
      "\<exists>n p. requests t' ! i = TusPatchReq location (''Bearer '' @ apiToken c) offset' n p"
    by simp_all
  have "tusUploadDirect e c tusURL f fileSize opts ch t0
           = (Inl (StatusMsg ''chunk upload failed with status %d: %s'' (resp_status r)
                     (resp_body r)), t')"
    using op run res by (simp add: tusUploadDirect_def)
  with rest show ?thesis by simp
qed

text \<open>
  A file of 300 MiB whose third chunk, at offset 100 MiB, is answered with 500: three
  PATCH requests are sent and \<open>offset\<close> ends at 100 MiB.
\<close>

definition sample_location :: string where
  "sample_location = ''https://api.cloudflare.com/client/v4/accounts/acct/stream/vid42''"

definition sample_opened :: trace where
  "sample_opened =
     \<lparr>requests = [TusCreateReq sample_tus_url ''Bearer tok'' 314572800 None],
      updates = []\<rparr>"

definition sample_aborted :: trace where
  "sample_aborted =
     \<lparr>requests =
        [TusCreateReq sample_tus_url ''Bearer tok'' 314572800 None,
         TusPatchReq sample_location ''Bearer tok'' 0 52428800 0,
         TusPatchReq sample_location ''Bearer tok'' 52428800 52428800 52428800,
         TusPatchReq sample_location ''Bearer tok'' 104857600 52428800 104857600],
      updates =
        [(\<lparr>BytesSent = 52428800, BytesTotal = 314572800\<rparr>, True),
         (\<lparr>BytesSent = 104857600, BytesTotal = 314572800\<rparr>, True)]\<rparr>"

theorem tus_chunk_failure_aborts_witness:
  "tusOpenSession (sample_env 314572800 (flaky_server 104857600)) sample_client
       sample_tus_url 314572800 emptyUploadOptions empty_trace
     = (Inr (sample_location, ''vid42''), sample_opened)
   \<and> tusChunkLoop (sample_env 314572800 (flaky_server 104857600)) sample_client
       sample_location 314572800 (Some (\<lambda>k. True)) (sample_file 314572800) 0 sample_opened
     = (Some (StatusMsg ''chunk upload failed with status %d: %s'' 500 []), 104857600,
        \<lparr>fname = ''a.mp4'', flen = 314572800, fpos = 157286400\<rparr>, sample_aborted)
   \<and> http_do (sample_env 314572800 (flaky_server 104857600)) 3
         (requests sample_aborted ! 3) = Response (plain_response 500 [])
   \<and> tusUploadDirect (sample_env 314572800 (flaky_server 104857600)) sample_client
       sample_tus_url (sample_file 314572800) 314572800 emptyUploadOptions
       (Some (\<lambda>k. True)) empty_trace
     = (Inl (StatusMsg ''chunk upload failed with status %d: %s'' 500 []), sample_aborted)
   \<and> length (requests sample_aborted) = 4"
proof -
  let ?E = "sample_env 314572800 (flaky_server 104857600)"
  have op: "tusOpenSession ?E sample_client sample_tus_url 314572800 emptyUploadOptions
              empty_trace = (Inr (sample_location, ''vid42''), sample_opened)"
    by (simp add: run_defs sample_tus_url_def sample_location_def sample_opened_def)
  have run: "tusChunkLoop ?E sample_client sample_location 314572800 (Some (\<lambda>k. True))
               (sample_file 314572800) 0 sample_opened
     = (Some (StatusMsg ''chunk upload failed with status %d: %s'' 500 []), 104857600,
        \<lparr>fname = ''a.mp4'', flen = 314572800, fpos = 157286400\<rparr>, sample_aborted)"
    by (simp add: run_defs sample_tus_url_def sample_location_def sample_opened_def
          sample_aborted_def tusChunkLoop.simps)
  have lo: "length (requests sample_opened) \<le> 3" by (simp add: sample_opened_def)
  have hi: "3 < length (requests sample_aborted)" by (simp add: sample_aborted_def)
  have resp: "http_do ?E 3 (requests sample_aborted ! 3) = Response (plain_response 500 [])"
    by (simp add: sample_env_def sample_aborted_def)
  have bad: "resp_status (plain_response 500 []) \<noteq> 204"
    by (simp add: plain_response_def)
  show ?thesis
    using tus_chunk_failure_aborts [OF op run lo hi resp bad] op run resp
    by (simp add: plain_response_def)
qed

section \<open>Progress updates\<close>

text \<open>
  The invariant of both loops on the updates attempted so far: \<open>BytesSent\<close> never
  decreases, every \<open>BytesTotal\<close> is the file size, and no \<open>BytesSent\<close> exceeds the
  bytes counted so far.
\<close>

definition progress_ok :: "int \<Rightarrow> int \<Rightarrow> (UploadProgress \<times> bool) list \<Rightarrow> bool" where
  "progress_ok whole bound us =
     (sorted (map (\<lambda>u. BytesSent (fst u)) us)
      \<and> list_all (\<lambda>u. BytesTotal (fst u) = whole \<and> BytesSent (fst u) \<le> bound) us)"

lemma progress_ok_mono: "progress_ok whole b us \<Longrightarrow> b \<le> b' \<Longrightarrow> progress_ok whole b' us"
  by (auto simp: progress_ok_def list_all_iff)


lemma updates_send_none [simp]: "updates (send_progress None p t) = updates t"
  by (simp add: send_progress_def)

lemma updates_send_some [simp]:
  "updates (send_progress (Some ready) p t) = updates t @ [(p, ready (length (updates t)))]"
  by (simp add: send_progress_def)



text \<open>One iteration of the copy loop, by the way it ends.\<close>

lemma copyLoop_cases [case_names eof read_err write_err ok]:
  obtains
    (eof) "read_fault e (fpos f) = None" "flen f \<le> fpos f"
      "copyLoop e fileSize ch f written t = (PipeClosed written, f, t)"
  | (read_err) x where "read_fault e (fpos f) = Some x"
      "copyLoop e fileSize ch f written t = (PipeFailed written x, f, t)"
  | (write_err) w where "fpos f < flen f" "pipe_write_fault e written = Some w"
      "copyLoop e fileSize ch f written t = (PipeFailed written w, advance f bufferSize, t)"
      "read_fault e (fpos f) = None"
  | (ok) "read_fault e (fpos f) = None" "fpos f < flen f"
      "pipe_write_fault e written = None"
      "copyLoop e fileSize ch f written t
         = copyLoop e fileSize ch (advance f bufferSize)
             (written + min bufferSize (flen f - fpos f))
             (send_progress ch
                \<lparr>BytesSent = written + min bufferSize (flen f - fpos f),
                 BytesTotal = fileSize\<rparr> t)"
proof (cases "read_fault e (fpos f)")
  case (Some x)
  then have "copyLoop e fileSize ch f written t = (PipeFailed written x, f, t)"
    by (simp add: copyLoop.simps [of e fileSize ch f written t] file_Read_def)
  with Some show thesis by (rule read_err)
next
  case None
  show thesis
  proof (cases "flen f \<le> fpos f")
    case True
    with None have "copyLoop e fileSize ch f written t = (PipeClosed written, f, t)"
      by (simp add: copyLoop.simps [of e fileSize ch f written t] file_Read_def)
    with None True show thesis by (rule eof)
  next
    case False
    then have lt: "fpos f < flen f" by simp
    then have n: "0 < min bufferSize (flen f - fpos f)"
      using bufferSize_pos by simp
    have rd: "file_Read e f bufferSize
                = (min bufferSize (flen f - fpos f), RNil, advance f bufferSize)"
      using None False by (simp add: file_Read_def advance_def)
    show thesis
    proof (cases "pipe_write_fault e written")
      case (Some w)
      then have "copyLoop e fileSize ch f written t
                   = (PipeFailed written w, advance f bufferSize, t)"
        using n by (simp add: copyLoop.simps [of e fileSize ch f written t] rd)
      with lt Some show thesis using None by (rule write_err)
    next
      case pw: None
      then have "copyLoop e fileSize ch f written t
         = copyLoop e fileSize ch (advance f bufferSize)
             (written + min bufferSize (flen f - fpos f))
             (send_progress ch
                \<lparr>BytesSent = written + min bufferSize (flen f - fpos f),
                 BytesTotal = fileSize\<rparr> t)"
        using n by (simp add: copyLoop.simps [of e fileSize ch f written t] rd)
      with None lt pw show thesis by (rule ok)
    qed
  qed
qed


lemma copyLoop_requests:
  "copyLoop e fileSize ch f written t = (body, f', t') \<Longrightarrow> requests t' = requests t"
proof (induction "nat (flen f - fpos f)" arbitrary: f written t rule: less_induct)
  case less
  note run = less.prems(1)
  show ?case
  proof (cases rule: copyLoop_cases [where e=e and f=f and t=t and fileSize=fileSize
      and ch=ch and written=written])
    case eof
    with run show ?thesis by auto
  next
    case (read_err x)
    with run show ?thesis by auto
  next
    case (write_err w)
    with run show ?thesis by auto
  next
    case ok
    let ?n = "min bufferSize (flen f - fpos f)"
    let ?f2 = "advance f bufferSize"
    let ?t2 = "send_progress ch \<lparr>BytesSent = written + ?n, BytesTotal = fileSize\<rparr> t"
    have dec: "nat (flen ?f2 - fpos ?f2) < nat (flen f - fpos f)"
      using ok(2) bufferSize_pos by simp
    have run2: "copyLoop e fileSize ch ?f2 (written + ?n) ?t2 = (body, f', t')"
      using run ok(4) by simp
    from less.hyps [OF dec run2] show ?thesis by simp
  qed
qed


section \<open>The two branches of the orchestrator\<close>

text \<open>
  Names for the values \<open>UploadFile\<close> computes before it branches, and for its last
  step, the fetch of the video details with the wrapping of its error.
\<close>

definition options_or_empty :: "UploadOptions option \<Rightarrow> UploadOptions" where
  "options_or_empty opts = (case opts of None \<Rightarrow> emptyUploadOptions | Some v \<Rightarrow> v)"

definition tus_endpoint :: "ClientImpl \<Rightarrow> string" where
  "tus_endpoint c = ''https://api.cloudflare.com/client/v4/accounts/'' @ accountID c @ ''/stream''"

definition opened_file :: "string \<Rightarrow> int \<Rightarrow> os_file" where
  "opened_file filePath n = \<lparr>fname = filePath, flen = n, fpos = 0\<rparr>"

definition directOpts :: DirectUploadOptions where
  "directOpts = \<lparr>MaxDurationSeconds = 21600, RequireSignedURLs_d = True\<rparr>"

definition fetch_details ::
  "env \<Rightarrow> ClientImpl \<Rightarrow> string \<Rightarrow> trace \<Rightarrow> (error + Video) \<times> trace" where
  "fetch_details e c videoID t =
     (case GetVideo e c videoID t of
        (Inl x, t2) \<Rightarrow> (Inl (Wrap ''failed to get video details: %w'' x), t2)
      | (Inr video, t2) \<Rightarrow> (Inr video, t2))"


lemma UploadFile_tus:
  "filePath \<noteq> [] \<Longrightarrow> os_open e filePath = Inr n \<Longrightarrow> stat_fault e filePath = None \<Longrightarrow>
   tusThreshold \<le> n \<Longrightarrow>
   UploadFile e c filePath opts ch =
     (case tusUploadDirect e c (tus_endpoint c) (opened_file filePath n) n
             (options_or_empty opts) ch empty_trace of
        (Inl x, t1) \<Rightarrow> (Inl (Wrap ''TUS upload failed: %w'' x), t1)
      | (Inr videoID, t1) \<Rightarrow> fetch_details e c videoID t1)"
  by (simp add: UploadFile_def Let_def tus_endpoint_def opened_file_def options_or_empty_def
        fetch_details_def split: prod.splits sum.splits)

lemma UploadFile_single_shot:
  "filePath \<noteq> [] \<Longrightarrow> os_open e filePath = Inr n \<Longrightarrow> stat_fault e filePath = None \<Longrightarrow>
   n < tusThreshold \<Longrightarrow>
   UploadFile e c filePath opts ch =
     (case CreateDirectUploadURL e c (Some directOpts) empty_trace of
        (Inl x, t1) \<Rightarrow> (Inl (Wrap ''failed to create direct upload URL: %w'' x), t1)
      | (Inr directResult, t1) \<Rightarrow>
          (case multipartUpload e c (UploadURL directResult) (opened_file filePath n) n
                  (options_or_empty opts) ch t1 of
             (Some x, t2) \<Rightarrow> (Inl (Wrap ''upload failed: %w'' x), t2)
           | (None, t2) \<Rightarrow> fetch_details e c (UID_d directResult) t2))"
  by (simp add: UploadFile_def Let_def directOpts_def opened_file_def options_or_empty_def
           fetch_details_def split: prod.splits sum.splits option.splits)



lemma GetVideo_updates: "GetVideo e c videoID t = (r, t1) \<Longrightarrow> updates t1 = updates t"
  by (auto simp: GetVideo_def split: if_splits)


lemma fetch_details_requests:
  "requests (snd (fetch_details e c videoID t))
     = (if videoID = [] then requests t
        else requests t @ [StreamGetReq (accountID c) videoID])"
  by (simp add: fetch_details_def GetVideo_def split: sum.splits)

lemma fetch_details_result:
  "fst (fetch_details e c videoID t)
     = (if videoID = []
        then Inl (Wrap ''failed to get video details: %w''
                    (Wrap ''%w: video ID cannot be empty'' ErrInvalidInput))
        else (case sdk_stream_get e videoID of
                Inl x \<Rightarrow> Inl (Wrap ''failed to get video details: %w'' x)
              | Inr video \<Rightarrow> Inr video))"
  by (simp add: fetch_details_def GetVideo_def split: sum.splits)

lemma progress_ok_Nil [simp]: "progress_ok whole b []"
  by (simp add: progress_ok_def)






text \<open>
  A file of 220 MiB uploaded while the consumer misses the second update: four updates
  are delivered, in increasing order, the last with all 220 MiB.
\<close>

definition sample_chan :: chan where
  "sample_chan k = (k \<noteq> 1)"

definition sample_video :: Video where
  "sample_video = \<lparr>UID = ''vid42'', VideoName = ''vid42'', Status = ''queued'',
                    ReadyToStream = False\<rparr>"

definition sample_uploaded :: trace where
  "sample_uploaded =
     \<lparr>requests =
        [TusCreateReq sample_tus_url ''Bearer tok'' 230686720 None,
         TusPatchReq sample_location ''Bearer tok'' 0 52428800 0,
         TusPatchReq sample_location ''Bearer tok'' 52428800 52428800 52428800,
         TusPatchReq sample_location ''Bearer tok'' 104857600 52428800 104857600,
         TusPatchReq sample_location ''Bearer tok'' 157286400 52428800 157286400,
         TusPatchReq sample_location ''Bearer tok'' 209715200 20971520 209715200,
         StreamGetReq ''acct'' ''vid42''],
      updates =
        [(\<lparr>BytesSent = 52428800, BytesTotal = 230686720\<rparr>, True),
         (\<lparr>BytesSent = 104857600, BytesTotal = 230686720\<rparr>, False),
         (\<lparr>BytesSent = 157286400, BytesTotal = 230686720\<rparr>, True),
         (\<lparr>BytesSent = 209715200, BytesTotal = 230686720\<rparr>, True),
         (\<lparr>BytesSent = 230686720, BytesTotal = 230686720\<rparr>, True)]\<rparr>"

lemma sample_upload_run:
  "UploadFile (sample_env 230686720 good_server) sample_client ''a.mp4'' None
     (Some sample_chan) = (Inr sample_video, sample_uploaded)"
  by (simp add: run_defs sample_tus_url_def sample_location_def sample_uploaded_def
        sample_video_def sample_chan_def tusChunkLoop.simps)


section \<open>Progress emission and the transfer\<close>

text \<open>
  The chunk loop run with another channel, from a trace with the same requests, returns
  the same error, offset and file, and issues the same requests.
\<close>

lemma tusChunkLoop_chan_indep:
  "requests t0 = requests t \<Longrightarrow>
   tusChunkLoop e c location fileSize ch f offset t = (res, offset', f', t') \<Longrightarrow>
   \<exists>t0'. tusChunkLoop e c location fileSize ch0 f offset t0 = (res, offset', f', t0')
         \<and> requests t0' = requests t'"
proof (induction "nat (flen f - fpos f)" arbitrary: f offset t t0 rule: less_induct)
  case less
  note rq = less.prems(1) and run = less.prems(2)
  show ?case
  proof (cases rule: tusChunkLoop_cases [where e=e and f=f and t=t and c=c
      and location=location and fileSize=fileSize and ch=ch and offset=offset])
    case eof
    have "tusChunkLoop e c location fileSize ch0 f offset t0 = (None, offset, f, t0)"
      by (cases rule: tusChunkLoop_cases [where e=e and f=f and t=t0 and c=c
            and location=location and fileSize=fileSize and ch=ch0 and offset=offset])
         (use eof in auto)
    with eof run rq show ?thesis by auto
  next
    case (read_err x)
    have "tusChunkLoop e c location fileSize ch0 f offset t0
            = (Some (Wrap ''failed to read file: %w'' x), offset, f, t0)"
      by (cases rule: tusChunkLoop_cases [where e=e and f=f and t=t0 and c=c
            and location=location and fileSize=fileSize and ch=ch0 and offset=offset])
         (use read_err in auto)
    with read_err run rq show ?thesis by auto
  next
    case (new_request x)
    have "tusChunkLoop e c location fileSize ch0 f offset t0
            = (Some (Wrap ''failed to create chunk request: %w'' x), offset,
               advance f chunkSize, t0)"
      by (cases rule: tusChunkLoop_cases [where e=e and f=f and t=t0 and c=c
            and location=location and fileSize=fileSize and ch=ch0 and offset=offset])
         (use new_request in auto)
    with new_request run rq show ?thesis by auto
  next
    case (transport x)
    have "tusChunkLoop e c location fileSize ch0 f offset t0
            = (Some (Wrap ''chunk upload failed: %w'' x), offset, advance f chunkSize,
               add_request (patchReq c location f offset) t0)"
      by (cases rule: tusChunkLoop_cases [where e=e and f=f and t=t0 and c=c
            and location=location and fileSize=fileSize and ch=ch0 and offset=offset])
         (use transport rq in auto)
    with transport run rq show ?thesis by auto
  next
    case (status r0)
    have "tusChunkLoop e c location fileSize ch0 f offset t0
            = (Some (StatusMsg ''chunk upload failed with status %d: %s'' (resp_status r0)
                       (resp_body r0)), offset, advance f chunkSize,
               add_request (patchReq c location f offset) t0)"
      by (cases rule: tusChunkLoop_cases [where e=e and f=f and t=t0 and c=c
            and location=location and fileSize=fileSize and ch=ch0 and offset=offset])
         (use status rq in auto)
    with status run rq show ?thesis by auto
  next
    case (ok r0)
    let ?n = "min chunkSize (flen f - fpos f)"
    let ?fa = "advance f chunkSize"
    let ?p = "\<lparr>BytesSent = offset + ?n, BytesTotal = fileSize\<rparr>"
    let ?ta = "send_progress ch ?p (add_request (patchReq c location f offset) t)"
    let ?tb = "send_progress ch0 ?p (add_request (patchReq c location f offset) t0)"
    have eq0: "tusChunkLoop e c location fileSize ch0 f offset t0
                 = tusChunkLoop e c location fileSize ch0 ?fa (offset + ?n) ?tb"
      by (cases rule: tusChunkLoop_cases [where e=e and f=f and t=t0 and c=c
            and location=location and fileSize=fileSize and ch=ch0 and offset=offset])
         (use ok rq in auto)
    have dec: "nat (flen ?fa - fpos ?fa) < nat (flen f - fpos f)"
      using ok(1) chunkSize_pos by simp
    have run2: "tusChunkLoop e c location fileSize ch ?fa (offset + ?n) ?ta
                  = (res, offset', f', t')"
      using run ok(4) by simp
    have rq2: "requests ?tb = requests ?ta" using rq by simp
    from less.hyps [OF dec rq2 run2] show ?thesis by (simp add: eq0)
  qed
qed

lemma copyLoop_chan_indep:
  "copyLoop e fileSize ch f written t = (body, f', t') \<Longrightarrow>
   \<exists>t0'. copyLoop e fileSize ch0 f written t0 = (body, f', t0')"
proof (induction "nat (flen f - fpos f)" arbitrary: f written t t0 rule: less_induct)
  case less
  note run = less.prems(1)
  show ?case
  proof (cases rule: copyLoop_cases [where e=e and f=f and t=t and fileSize=fileSize
      and ch=ch and written=written])
    case eof
    have "copyLoop e fileSize ch0 f written t0 = (PipeClosed written, f, t0)"
      by (cases rule: copyLoop_cases [where e=e and f=f and t=t0 and fileSize=fileSize
            and ch=ch0 and written=written]) (use eof in auto)
    with eof run show ?thesis by auto
  next
    case (read_err x)
    have "copyLoop e fileSize ch0 f written t0 = (PipeFailed written x, f, t0)"
      by (cases rule: copyLoop_cases [where e=e and f=f and t=t0 and fileSize=fileSize
            and ch=ch0 and written=written]) (use read_err in auto)
    with read_err run show ?thesis by auto
  next
    case (write_err w)
    have "copyLoop e fileSize ch0 f written t0
            = (PipeFailed written w, advance f bufferSize, t0)"
      by (cases rule: copyLoop_cases [where e=e and f=f and t=t0 and fileSize=fileSize
            and ch=ch0 and written=written]) (use write_err in auto)
    with write_err run show ?thesis by auto
  next
    case ok
    let ?n = "min bufferSize (flen f - fpos f)"
    let ?fa = "advance f bufferSize"
    let ?p = "\<lparr>BytesSent = written + ?n, BytesTotal = fileSize\<rparr>"
    have eq0: "copyLoop e fileSize ch0 f written t0
                 = copyLoop e fileSize ch0 ?fa (written + ?n) (send_progress ch0 ?p t0)"
      by (cases rule: copyLoop_cases [where e=e and f=f and t=t0 and fileSize=fileSize
            and ch=ch0 and written=written]) (use ok in auto)
    have dec: "nat (flen ?fa - fpos ?fa) < nat (flen f - fpos f)"
      using ok(2) bufferSize_pos by simp
    have run2: "copyLoop e fileSize ch ?fa (written + ?n) (send_progress ch ?p t)
                  = (body, f', t')"
      using run ok(4) by simp
    from less.hyps [OF dec run2] show ?thesis by (simp add: eq0)
  qed
qed

text \<open>What a call returns and the requests it issued.\<close>

definition outcome :: "'a \<times> trace \<Rightarrow> 'a \<times> request list" where
  "outcome r = (fst r, requests (snd r))"

lemma outcome_pair [simp]: "outcome (r, t) = (r, requests t)"
  by (simp add: outcome_def)

lemma fetch_details_outcome:
  "requests t0 = requests t \<Longrightarrow>
   outcome (fetch_details e c videoID t0) = outcome (fetch_details e c videoID t)"
  by (simp add: outcome_def fetch_details_result fetch_details_requests)

lemma tusUploadDirect_chan_indep:
  "outcome (tusUploadDirect e c tusURL f fileSize opts ch t)
     = outcome (tusUploadDirect e c tusURL f fileSize opts ch0 t)"
proof (cases "tusOpenSession e c tusURL fileSize opts t")
  case (Pair r t1)
  show ?thesis
  proof (cases r)
    case (Inl x)
    with Pair show ?thesis by (simp add: tusUploadDirect_def)
  next
    case (Inr lv)
    obtain location videoID where lv: "lv = (location, videoID)" by (cases lv)
    obtain r2 offset' f' t2 where
      lp: "tusChunkLoop e c location fileSize ch f 0 t1 = (r2, offset', f', t2)"
      by (cases "tusChunkLoop e c location fileSize ch f 0 t1") auto
    from tusChunkLoop_chan_indep [OF refl lp, of ch0] obtain t3 where
      lp0: "tusChunkLoop e c location fileSize ch0 f 0 t1 = (r2, offset', f', t3)"
      and rq: "requests t3 = requests t2" by blast
    from Pair Inr lv lp lp0 rq show ?thesis
      by (cases r2) (simp_all add: tusUploadDirect_def)
  qed
qed

lemma multipartUpload_chan_indep:
  "outcome (multipartUpload e c uploadURL f fileSize opts ch t)
     = outcome (multipartUpload e c uploadURL f fileSize opts ch0 t)"
proof (cases "new_request_fault e uploadURL")
  case (Some x)
  then show ?thesis by (simp add: multipartUpload_def)
next
  case None
  show ?thesis
  proof (cases "form_file_fault e")
    case (Some x)
    with None show ?thesis by (simp add: multipartUpload_def)
  next
    case ff: None
    obtain body f' t1 where cp: "copyLoop e fileSize ch f 0 t = (body, f', t1)"
      by (cases "copyLoop e fileSize ch f 0 t") auto
    from copyLoop_chan_indep [OF cp, of ch0 t] obtain t3 where
      cp0: "copyLoop e fileSize ch0 f 0 t = (body, f', t3)" by blast
    have rq: "requests t1 = requests t" "requests t3 = requests t"
      using copyLoop_requests [OF cp] copyLoop_requests [OF cp0] by simp_all
    from None ff cp cp0 rq show ?thesis
      by (simp add: multipartUpload_def Let_def split: http_result.splits)
  qed
qed

text \<open>
  Claim C8. Two runs of \<open>UploadFile\<close> in the same environment that differ only in the
  progress channel (which sends find the consumer ready, or whether there is a channel at
  all) return the same result and issue the same requests, in the same order. A send
  never blocks: on a channel that is not ready the update is dropped (it is not among
  the delivered updates) and the call goes on; a send changes no request.
\<close>

theorem progress_never_gates_transfer:
  "outcome (UploadFile e c filePath opts ch1) = outcome (UploadFile e c filePath opts ch2)
   \<and> delivered (send_progress (Some ready) p t)
       = (if ready (length (updates t)) then delivered t @ [p] else delivered t)
   \<and> requests (send_progress (Some ready) p t) = requests t"
proof -
  have main: "outcome (UploadFile e c filePath opts ch1)
                = outcome (UploadFile e c filePath opts ch2)"
  proof (cases "filePath = []")
    case True
    then show ?thesis by (simp add: UploadFile_def)
  next
    case ne: False
    show ?thesis
    proof (cases "os_open e filePath")
      case (Inl x)
      with ne show ?thesis by (simp add: UploadFile_def)
    next
      case (Inr n)
      show ?thesis
      proof (cases "stat_fault e filePath")
        case (Some x)
        with ne Inr show ?thesis by (simp add: UploadFile_def)
      next
        case None
        show ?thesis
        proof (cases "tusThreshold \<le> n")
          case True
          obtain ra ta where a: "tusUploadDirect e c (tus_endpoint c)
              (opened_file filePath n) n (options_or_empty opts) ch1 empty_trace = (ra, ta)"
            by (cases "tusUploadDirect e c (tus_endpoint c) (opened_file filePath n) n
                         (options_or_empty opts) ch1 empty_trace") auto
          obtain rb tb where b: "tusUploadDirect e c (tus_endpoint c)
              (opened_file filePath n) n (options_or_empty opts) ch2 empty_trace = (rb, tb)"
            by (cases "tusUploadDirect e c (tus_endpoint c) (opened_file filePath n) n
                         (options_or_empty opts) ch2 empty_trace") auto
          from tusUploadDirect_chan_indep [of e c "tus_endpoint c" "opened_file filePath n" n
              "options_or_empty opts" ch1 empty_trace ch2] a b
          have eq: "ra = rb" "requests ta = requests tb" by simp_all
          show ?thesis
            unfolding UploadFile_tus [OF ne Inr None True] a b
            using eq fetch_details_outcome [of ta tb e c]
            by (auto split: sum.splits)
        next
          case False
          then have lt: "n < tusThreshold" by simp
          obtain r0 t0 where
            cr: "CreateDirectUploadURL e c (Some directOpts) empty_trace = (r0, t0)"
            by (cases "CreateDirectUploadURL e c (Some directOpts) empty_trace") auto
          show ?thesis
          proof (cases r0)
            case (Inl x)
            with cr show ?thesis
              unfolding UploadFile_single_shot [OF ne Inr None lt] by simp
          next
            case (Inr d)
            obtain ra ta where a: "multipartUpload e c (UploadURL d)
                (opened_file filePath n) n (options_or_empty opts) ch1 t0 = (ra, ta)"
              by (cases "multipartUpload e c (UploadURL d) (opened_file filePath n) n
                           (options_or_empty opts) ch1 t0") auto
            obtain rb tb where b: "multipartUpload e c (UploadURL d)
                (opened_file filePath n) n (options_or_empty opts) ch2 t0 = (rb, tb)"
              by (cases "multipartUpload e c (UploadURL d) (opened_file filePath n) n
                           (options_or_empty opts) ch2 t0") auto
            from multipartUpload_chan_indep [of e c "UploadURL d" "opened_file filePath n"
                n "options_or_empty opts" ch1 t0 ch2] a b
            have eq: "ra = rb" "requests ta = requests tb" by simp_all
            show ?thesis
              unfolding UploadFile_single_shot [OF ne \<open>os_open e filePath = Inr n\<close> None lt]
              using cr Inr a b eq fetch_details_outcome [of ta tb e c]
              by (auto split: option.splits)
          qed
        qed
      qed
    qed
  qed
  have drop: "delivered (send_progress (Some ready) p t)
       = (if ready (length (updates t)) then delivered t @ [p] else delivered t)"
    by (simp add: delivered_def)
  from main drop show ?thesis by simp
qed

theorem progress_never_gates_transfer_witness:
  "outcome (UploadFile (sample_env 230686720 good_server) sample_client ''a.mp4'' None
      (Some sample_chan))
     = outcome (UploadFile (sample_env 230686720 good_server) sample_client ''a.mp4'' None
         None)
   \<and> outcome (UploadFile (sample_env 230686720 good_server) sample_client ''a.mp4'' None
         None)
     = (Inr sample_video, requests sample_uploaded)"
  using progress_never_gates_transfer [of "sample_env 230686720 good_server" sample_client
      "''a.mp4''" None "Some sample_chan" None]
    sample_upload_run
  by simp

end
